theory Spec2Isabelle
  imports Main "HOL-Library.Word"
begin

unbundle bit_operations_syntax

section \<open>Common definitions (common.hpp)\<close>

type_synonym byte = "8 word"
type_synonym u16 = "16 word"
type_synonym u32 = "32 word"

text \<open>
  The scoped enumerations \<open>QType\<close>, \<open>QClass\<close>, \<open>RCode\<close> and \<open>OpCode\<close> have a fixed
  underlying integer type and are filled by \<open>static_cast\<close> from wire values, so a
  variable of such a type holds any value of the underlying type. They are modelled
  as words of that width, with the enumerators used by the code as constants.
\<close>

type_synonym QType = u16
type_synonym QClass = u16
type_synonym RCode = byte
type_synonym OpCode = byte

definition QType_AAAA :: QType where "QType_AAAA = 28"
definition QType_OPT :: QType where "QType_OPT = 41"
definition QType_HTTPS :: QType where "QType_HTTPS = 65"

definition RCode_NXDOMAIN :: RCode where "RCode_NXDOMAIN = 3"

definition OpCode_QUERY :: OpCode where "OpCode_QUERY = 0"
definition OpCode_IQUERY :: OpCode where "OpCode_IQUERY = 1"
definition OpCode_STATUS :: OpCode where "OpCode_STATUS = 2"
definition OpCode_NOTIFY :: OpCode where "OpCode_NOTIFY = 4"
definition OpCode_UPDATE :: OpCode where "OpCode_UPDATE = 5"
definition OpCode_DSO :: OpCode where "OpCode_DSO = 6"

text \<open>Namespace \<open>Flags\<close>: masks of the 16-bit flag word.\<close>

definition Flags_QR :: u16 where "Flags_QR = 0x8000"
definition Flags_AA :: u16 where "Flags_AA = 0x0400"
definition Flags_TC :: u16 where "Flags_TC = 0x0200"
definition Flags_RD :: u16 where "Flags_RD = 0x0100"
definition Flags_RA :: u16 where "Flags_RA = 0x0080"
definition Flags_Z :: u16 where "Flags_Z = 0x0040"
definition Flags_AD :: u16 where "Flags_AD = 0x0020"
definition Flags_CD :: u16 where "Flags_CD = 0x0010"

text \<open>Namespace \<open>Limits\<close>.\<close>

definition MAX_EDNS_PAYLOAD :: nat where "MAX_EDNS_PAYLOAD = 4096"
definition MAX_LABEL_LEN :: nat where "MAX_LABEL_LEN = 63"
definition MAX_NAME_LEN :: nat where "MAX_NAME_LEN = 255"
definition COMPRESSION_MASK :: byte where "COMPRESSION_MASK = 0xC0"

text \<open>The enumeration \<open>Error\<close>; only named enumerators are ever produced.\<close>

datatype Error =
    OK
  | PARSE_TOO_SHORT | PARSE_BAD_OPCODE | PARSE_BAD_LABEL | PARSE_NAME_TOO_LONG
  | PARSE_PTR_LOOP | PARSE_PTR_OOB | PARSE_TRUNCATED | PARSE_BAD_QTYPE
  | PARSE_BAD_QCLASS | PARSE_BAD_QDCOUNT
  | ENCODE_NAME_TOO_LONG | ENCODE_LABEL_TOO_LONG | ENCODE_OVERFLOW
  | SERVER_SOCKET_FAIL | SERVER_BIND_FAIL | SERVER_RECV_FAIL | SERVER_SEND_FAIL
  | SERVER_NOT_RUNNING
  | UPSTREAM_TIMEOUT | UPSTREAM_UNREACHABLE | UPSTREAM_SERVFAIL
  | CACHE_MISS | CACHE_EXPIRED | CACHE_FULL
  | BLOCKER_FILE_NOT_FOUND | BLOCKER_PARSE_ERROR | BLOCKER_EMPTY | INVALID_IP
  | UNKNOWN

text \<open>
  A call either returns a value (\<open>Inr\<close>), returns \<open>std::unexpected\<close> with an error
  code, or reads the buffer \<open>data\<close> at an index that is not below the length \<open>len\<close> it
  was given. For a buffer of \<open>len\<close> bytes the last is undefined behaviour in the source;
  the model records it as \<open>ReadPastEnd\<close>.
\<close>

datatype fault = Unexpected Error | ReadPastEnd

type_synonym 'a expected = "fault + 'a"

section \<open>Reading the datagram\<close>

text \<open>
  The source passes a pointer \<open>data\<close> and a length \<open>len\<close>; the model passes the list
  of the \<open>len\<close> bytes. Every \<open>data[i]\<close> of the source is a \<open>byte_at\<close>, and the
  iterator-pair copy \<open>vector(data + from, data + from + n)\<close> is a \<open>bytes_from\<close>.
\<close>

definition byte_at :: "byte list \<Rightarrow> nat \<Rightarrow> byte expected" where
  "byte_at data i = (if i < length data then Inr (data ! i) else Inl ReadPastEnd)"

definition bytes_from :: "byte list \<Rightarrow> nat \<Rightarrow> nat \<Rightarrow> byte list expected" where
  "bytes_from data from n =
     (if from + n \<le> length data then Inr (take n (drop from data)) else Inl ReadPastEnd)"

text \<open>\<open>(static_cast<uint16_t>(hi) << 8) | lo\<close>\<close>

definition be16 :: "byte \<Rightarrow> byte \<Rightarrow> u16" where
  "be16 hi lo = push_bit 8 (ucast hi) OR ucast lo"

definition be32 :: "byte \<Rightarrow> byte \<Rightarrow> byte \<Rightarrow> byte \<Rightarrow> u32" where
  "be32 b0 b1 b2 b3 =
     push_bit 24 (ucast b0) OR push_bit 16 (ucast b1) OR push_bit 8 (ucast b2) OR ucast b3"

text \<open>Two adjacent bytes read as a big-endian 16-bit value.\<close>

definition read16 :: "byte list \<Rightarrow> nat \<Rightarrow> u16 expected" where
  "read16 data i =
     (case byte_at data i of Inl f \<Rightarrow> Inl f | Inr hi \<Rightarrow>
      (case byte_at data (i + 1) of Inl f \<Rightarrow> Inl f | Inr lo \<Rightarrow> Inr (be16 hi lo)))"

definition read32 :: "byte list \<Rightarrow> nat \<Rightarrow> u32 expected" where
  "read32 data i =
     (case byte_at data i of Inl f \<Rightarrow> Inl f | Inr b0 \<Rightarrow>
      (case byte_at data (i + 1) of Inl f \<Rightarrow> Inl f | Inr b1 \<Rightarrow>
       (case byte_at data (i + 2) of Inl f \<Rightarrow> Inl f | Inr b2 \<Rightarrow>
        (case byte_at data (i + 3) of Inl f \<Rightarrow> Inl f | Inr b3 \<Rightarrow>
           Inr (be32 b0 b1 b2 b3)))))"

text \<open>A \<open>std::string\<close> is a sequence of bytes read as characters.\<close>

definition char_of_byte :: "byte \<Rightarrow> char" where
  "char_of_byte b = char_of (unat b)"

definition byte_of_char :: "char \<Rightarrow> byte" where
  "byte_of_char c = of_char c"

section \<open>Name::decode\<close>

text \<open>
  The loop of \<open>Name::decode\<close> with its local variables \<open>name\<close>, \<open>pos\<close>, \<open>jumped\<close>,
  \<open>hops\<close> and the caller's \<open>offset\<close>. At \<open>break\<close> it yields the name, the caller's
  offset and the hop counter.
\<close>

function Name_decode_loop ::
  "byte list \<Rightarrow> string \<Rightarrow> nat \<Rightarrow> bool \<Rightarrow> nat \<Rightarrow> nat \<Rightarrow> (string \<times> nat \<times> nat) expected"
where
  "Name_decode_loop data name pos jumped hops offset =
    (if pos \<ge> length data then Inl (Unexpected PARSE_TRUNCATED)
     else
      (case byte_at data pos of Inl f \<Rightarrow> Inl f | Inr labelLen \<Rightarrow>
        if labelLen = 0 then
          Inr (name, (if \<not> jumped then pos + 1 else offset), hops)
        else if labelLen AND COMPRESSION_MASK = COMPRESSION_MASK then
          (if pos + 1 \<ge> length data then Inl (Unexpected PARSE_PTR_OOB)
           else
            (case byte_at data (pos + 1) of Inl f \<Rightarrow> Inl f | Inr lo \<Rightarrow>
              if unat (be16 (labelLen AND 0x3F) lo) \<ge> length data
              then Inl (Unexpected PARSE_PTR_OOB)
              else if hops + 1 > 20 then Inl (Unexpected PARSE_PTR_LOOP)
              else Name_decode_loop data name (unat (be16 (labelLen AND 0x3F) lo)) True
                     (hops + 1) (if \<not> jumped then pos + 2 else offset)))
        else if unat labelLen > MAX_LABEL_LEN then Inl (Unexpected PARSE_BAD_LABEL)
        else if pos + 1 + unat labelLen > length data then Inl (Unexpected PARSE_TRUNCATED)
        else
          (case bytes_from data (pos + 1) (unat labelLen) of Inl f \<Rightarrow> Inl f | Inr label \<Rightarrow>
            if length ((if name \<noteq> [] then name @ ''.'' else name) @ map char_of_byte label)
                 > MAX_NAME_LEN
            then Inl (Unexpected PARSE_NAME_TOO_LONG)
            else Name_decode_loop data
                   ((if name \<noteq> [] then name @ ''.'' else name) @ map char_of_byte label)
                   (pos + 1 + unat labelLen) jumped hops offset)))"
  by pat_completeness auto
termination
  by (relation "measures [\<lambda>(data, name, pos, jumped, hops, offset). 21 - hops,
                          \<lambda>(data, name, pos, jumped, hops, offset). length data - pos]")
     auto

declare Name_decode_loop.simps [simp del]

definition Name_decode :: "byte list \<Rightarrow> nat \<Rightarrow> (string \<times> nat) expected" where
  "Name_decode data offset =
     (case Name_decode_loop data [] offset False 0 offset of
        Inl f \<Rightarrow> Inl f
      | Inr (name, offset', hops) \<Rightarrow> Inr (name, offset'))"

section \<open>Question and ResourceRecord\<close>

record Question =
  qname :: string
  qtype :: QType
  qclass :: QClass

record ResourceRecord =
  rr_name :: string
  rr_type :: QType
  rr_rclass :: QClass
  rr_ttl :: u32
  rr_rdlength :: u16
  rr_rdata :: "byte list"

definition Question_decode :: "byte list \<Rightarrow> nat \<Rightarrow> (Question \<times> nat) expected" where
  "Question_decode data offset0 =
     (case Name_decode data offset0 of Inl f \<Rightarrow> Inl f | Inr (name, offset) \<Rightarrow>
       if offset + 4 > length data then Inl (Unexpected PARSE_TRUNCATED)
       else
        (case read16 data offset of Inl f \<Rightarrow> Inl f | Inr qt \<Rightarrow>
         (case read16 data (offset + 2) of Inl f \<Rightarrow> Inl f | Inr qc \<Rightarrow>
            Inr (\<lparr>qname = name, qtype = qt, qclass = qc\<rparr>, offset + 4))))"

text \<open>
  In \<open>ResourceRecord::decode\<close> the test \<open>offset + rdlength > len\<close> is made before
  \<open>offset += 10\<close>, and the RDATA bytes are copied from the advanced offset.
\<close>

definition ResourceRecord_decode ::
  "byte list \<Rightarrow> nat \<Rightarrow> (ResourceRecord \<times> nat) expected" where
  "ResourceRecord_decode data offset0 =
     (case Name_decode data offset0 of Inl f \<Rightarrow> Inl f | Inr (name, offset) \<Rightarrow>
       if offset + 10 > length data then Inl (Unexpected PARSE_TRUNCATED)
       else
        (case read16 data offset of Inl f \<Rightarrow> Inl f | Inr ty \<Rightarrow>
         (case read16 data (offset + 2) of Inl f \<Rightarrow> Inl f | Inr rclass \<Rightarrow>
          (case read32 data (offset + 4) of Inl f \<Rightarrow> Inl f | Inr ttl \<Rightarrow>
           (case read16 data (offset + 8) of Inl f \<Rightarrow> Inl f | Inr rdlength \<Rightarrow>
             if offset + unat rdlength > length data then Inl (Unexpected PARSE_TRUNCATED)
             else
              (case bytes_from data (offset + 10) (unat rdlength) of Inl f \<Rightarrow> Inl f
               | Inr rdata \<Rightarrow>
                  Inr (\<lparr>rr_name = name, rr_type = ty, rr_rclass = rclass, rr_ttl = ttl,
                        rr_rdlength = rdlength, rr_rdata = rdata\<rparr>,
                       offset + 10 + unat rdlength)))))))"

section \<open>Header\<close>

record Header =
  h_id :: u16
  h_qr :: bool
  h_opcode :: OpCode
  h_aa :: bool
  h_tc :: bool
  h_rd :: bool
  h_ra :: bool
  h_ad :: bool
  h_cd :: bool
  h_rcode :: RCode
  h_qdcount :: u16
  h_ancount :: u16
  h_nscount :: u16
  h_arcount :: u16

text \<open>\<open>static_cast<uint16_t>(b) << k\<close> for a \<open>bool\<close> \<open>b\<close>.\<close>

definition bit_of :: "bool \<Rightarrow> nat \<Rightarrow> u16" where
  "bit_of b k = push_bit k (if b then 1 else 0)"

definition getRawFlags :: "Header \<Rightarrow> u16" where
  "getRawFlags h =
     bit_of (h_qr h) 15
     OR push_bit 11 (ucast (h_opcode h) AND 0xF)
     OR bit_of (h_aa h) 10
     OR bit_of (h_tc h) 9
     OR bit_of (h_rd h) 8
     OR bit_of (h_ra h) 7
     OR bit_of (h_ad h) 5
     OR bit_of (h_cd h) 4
     OR (ucast (h_rcode h) AND 0xF)"

text \<open>The lambda \<open>write16\<close>: two bytes, most significant first.\<close>

definition write16 :: "u16 \<Rightarrow> byte list" where
  "write16 v = [ucast (drop_bit 8 v AND 0xFF), ucast (v AND 0xFF)]"

definition write32 :: "u32 \<Rightarrow> byte list" where
  "write32 v = [ucast (drop_bit 24 v AND 0xFF), ucast (drop_bit 16 v AND 0xFF),
                ucast (drop_bit 8 v AND 0xFF), ucast (v AND 0xFF)]"

definition Header_encode :: "Header \<Rightarrow> byte list" where
  "Header_encode h =
     write16 (h_id h) @ write16 (getRawFlags h) @ write16 (h_qdcount h)
     @ write16 (h_ancount h) @ write16 (h_nscount h) @ write16 (h_arcount h)"

definition valid_opcode :: "OpCode \<Rightarrow> bool" where
  "valid_opcode opcode \<longleftrightarrow>
     \<not> (opcode \<noteq> OpCode_QUERY \<and> opcode \<noteq> OpCode_IQUERY \<and> opcode \<noteq> OpCode_STATUS \<and>
        opcode \<noteq> OpCode_NOTIFY \<and> opcode \<noteq> OpCode_UPDATE \<and> opcode \<noteq> OpCode_DSO)"

definition Header_decode :: "byte list \<Rightarrow> Header expected" where
  "Header_decode data =
     (if length data < 12 then Inl (Unexpected PARSE_TOO_SHORT)
      else
       (case read16 data 0 of Inl f \<Rightarrow> Inl f | Inr ident \<Rightarrow>
        (case read16 data 2 of Inl f \<Rightarrow> Inl f | Inr flags \<Rightarrow>
          if flags AND Flags_Z \<noteq> 0 then Inl (Unexpected PARSE_TRUNCATED)
          else if \<not> valid_opcode (ucast (drop_bit 11 flags AND 0xF))
          then Inl (Unexpected PARSE_BAD_OPCODE)
          else if \<not> (drop_bit 15 flags AND 1 \<noteq> 0) \<and>
                  (flags AND Flags_RA \<noteq> 0 \<or> flags AND Flags_AA \<noteq> 0)
          then Inl (Unexpected PARSE_TRUNCATED)
          else
           (case read16 data 4 of Inl f \<Rightarrow> Inl f | Inr qdcount \<Rightarrow>
            (case read16 data 6 of Inl f \<Rightarrow> Inl f | Inr ancount \<Rightarrow>
             (case read16 data 8 of Inl f \<Rightarrow> Inl f | Inr nscount \<Rightarrow>
              (case read16 data 10 of Inl f \<Rightarrow> Inl f | Inr arcount \<Rightarrow>
                if \<not> (drop_bit 15 flags AND 1 \<noteq> 0) \<and> qdcount = 0
                then Inl (Unexpected PARSE_BAD_QDCOUNT)
                else if qdcount > 1 then Inl (Unexpected PARSE_BAD_QDCOUNT)
                else if ancount > 500 \<or> nscount > 500 \<or> arcount > 500
                then Inl (Unexpected PARSE_TRUNCATED)
                else Inr \<lparr>h_id = ident,
                          h_qr = (drop_bit 15 flags AND 1 \<noteq> 0),
                          h_opcode = ucast (drop_bit 11 flags AND 0xF),
                          h_aa = (flags AND Flags_AA \<noteq> 0),
                          h_tc = (flags AND Flags_TC \<noteq> 0),
                          h_rd = (flags AND Flags_RD \<noteq> 0),
                          h_ra = (flags AND Flags_RA \<noteq> 0),
                          h_ad = (flags AND Flags_AD \<noteq> 0),
                          h_cd = (flags AND Flags_CD \<noteq> 0),
                          h_rcode = ucast (flags AND 0xF),
                          h_qdcount = qdcount, h_ancount = ancount,
                          h_nscount = nscount, h_arcount = arcount\<rparr>)))))))"

section \<open>Message and MessageParser::parse\<close>

record Message =
  header :: Header
  questions :: "Question list"
  answers :: "ResourceRecord list"
  authority :: "ResourceRecord list"
  additional :: "ResourceRecord list"

text \<open>
  The four \<open>for\<close> loops of \<open>parse\<close>: \<open>n\<close> is the number of iterations left, \<open>acc\<close> the
  section vector filled so far; the cursor \<open>offset\<close> is shared.
\<close>

fun decode_questions ::
  "byte list \<Rightarrow> nat \<Rightarrow> Question list \<Rightarrow> nat \<Rightarrow> (Question list \<times> nat) expected" where
  "decode_questions data 0 acc offset = Inr (acc, offset)"
| "decode_questions data (Suc n) acc offset =
     (case Question_decode data offset of Inl f \<Rightarrow> Inl f
      | Inr (q, offset') \<Rightarrow> decode_questions data n (acc @ [q]) offset')"

fun decode_records ::
  "byte list \<Rightarrow> nat \<Rightarrow> ResourceRecord list \<Rightarrow> nat \<Rightarrow> (ResourceRecord list \<times> nat) expected"
where
  "decode_records data 0 acc offset = Inr (acc, offset)"
| "decode_records data (Suc n) acc offset =
     (case ResourceRecord_decode data offset of Inl f \<Rightarrow> Inl f
      | Inr (rr, offset') \<Rightarrow> decode_records data n (acc @ [rr]) offset')"

definition MessageParser_parse :: "byte list \<Rightarrow> Message expected" where
  "MessageParser_parse data =
     (if length data < 12 then Inl (Unexpected PARSE_TOO_SHORT)
      else if length data > MAX_EDNS_PAYLOAD then Inl (Unexpected PARSE_TRUNCATED)
      else
       (case Header_decode data of Inl f \<Rightarrow> Inl f | Inr hdr \<Rightarrow>
        (case decode_questions data (unat (h_qdcount hdr)) [] 12 of Inl f \<Rightarrow> Inl f
         | Inr (qs, off1) \<Rightarrow>
          (case decode_records data (unat (h_ancount hdr)) [] off1 of Inl f \<Rightarrow> Inl f
           | Inr (ans, off2) \<Rightarrow>
            (case decode_records data (unat (h_nscount hdr)) [] off2 of Inl f \<Rightarrow> Inl f
             | Inr (auth, off3) \<Rightarrow>
              (case decode_records data (unat (h_arcount hdr)) [] off3 of Inl f \<Rightarrow> Inl f
               | Inr (addl, off4) \<Rightarrow>
                  Inr \<lparr>header = hdr, questions = qs, answers = ans,
                       authority = auth, additional = addl\<rparr>))))))"

section \<open>Name::encode\<close>

text \<open>\<open>std::string::find(c)\<close>: the index of the first \<open>c\<close>, \<open>None\<close> for \<open>npos\<close>.\<close>

definition find_chr :: "char \<Rightarrow> string \<Rightarrow> nat option" where
  "find_chr c s = (if c \<in> set s then Some (length (takeWhile (\<lambda>x. x \<noteq> c) s)) else None)"

text \<open>\<open>std::string::find(c, pos)\<close>.\<close>

definition find_chr_from :: "char \<Rightarrow> string \<Rightarrow> nat \<Rightarrow> nat option" where
  "find_chr_from c s pos = map_option (\<lambda>i. pos + i) (find_chr c (drop pos s))"

text \<open>
  The compression table \<open>std::unordered_map<std::string, uint16_t>\<close>; the parameter
  \<open>table\<close> of \<open>Name::encode\<close> is a pointer that may be null (\<open>None\<close>), and the table
  it points to is updated in place, so the model returns it next to the result.
\<close>

type_synonym table = "string \<rightharpoonup> u16"

definition table_find :: "table option \<Rightarrow> string \<Rightarrow> u16 option" where
  "table_find table s = (case table of None \<Rightarrow> None | Some t \<Rightarrow> t s)"

definition table_register :: "table option \<Rightarrow> string \<Rightarrow> u16 \<Rightarrow> table option" where
  "table_register table s v = map_option (\<lambda>t. t(s \<mapsto> v)) table"

definition pointer_bytes :: "u16 \<Rightarrow> byte list" where
  "pointer_bytes ptr = [0xC0 OR ucast (drop_bit 8 ptr AND 0x3F), ucast (ptr AND 0xFF)]"

function Name_encode_loop ::
  "string \<Rightarrow> table option \<Rightarrow> u16 \<Rightarrow> byte list \<Rightarrow> nat \<Rightarrow> byte list expected \<times> table option"
where
  "Name_encode_loop name table baseOffset buf pos =
    (case table_find table (drop pos name) of
       Some ptr \<Rightarrow> (Inr (buf @ pointer_bytes ptr), table)
     | None \<Rightarrow>
        if pos \<ge> length name then
          (if length (buf @ [0]) > MAX_NAME_LEN then Inl (Unexpected ENCODE_NAME_TOO_LONG)
           else Inr (buf @ [0]),
           table_register table (drop pos name) (of_nat (unat baseOffset + length buf)))
        else
         (case find_chr_from CHR ''.'' name pos of
            None \<Rightarrow>
              if length name - pos = 0 \<or> length name - pos > MAX_LABEL_LEN
              then (Inl (Unexpected ENCODE_LABEL_TOO_LONG),
                    table_register table (drop pos name) (of_nat (unat baseOffset + length buf)))
              else Name_encode_loop name
                     (table_register table (drop pos name)
                        (of_nat (unat baseOffset + length buf)))
                     baseOffset
                     (buf @ [of_nat (length name - pos)]
                          @ map byte_of_char (take (length name - pos) (drop pos name)))
                     (length name)
          | Some dot \<Rightarrow>
              if dot - pos = 0 \<or> dot - pos > MAX_LABEL_LEN
              then (Inl (Unexpected ENCODE_LABEL_TOO_LONG),
                    table_register table (drop pos name) (of_nat (unat baseOffset + length buf)))
              else Name_encode_loop name
                     (table_register table (drop pos name)
                        (of_nat (unat baseOffset + length buf)))
                     baseOffset
                     (buf @ [of_nat (dot - pos)]
                          @ map byte_of_char (take (dot - pos) (drop pos name)))
                     (dot + 1)))"
  by pat_completeness auto
termination
proof (relation "measure (\<lambda>(name, table, baseOffset, buf, pos). length name - pos)")
  have tw: "length (takeWhile (\<lambda>x. x \<noteq> c) s) < length s" if "c \<in> set s"
    for c :: char and s
    using that by (induction s) auto
  fix name :: string and table :: "table option" and baseOffset :: u16
    and buf :: "byte list" and pos dot :: nat
  assume "\<not> length name \<le> pos"
  then show "((name, table_register table (drop pos name)
                 (word_of_nat (unat baseOffset + length buf)), baseOffset,
               buf @ [word_of_nat (length name - pos)]
                   @ map byte_of_char (take (length name - pos) (drop pos name)),
               length name),
              name, table, baseOffset, buf, pos)
             \<in> measure (\<lambda>(name, table, baseOffset, buf, pos). length name - pos)"
    by simp
  assume "find_chr_from CHR ''.'' name pos = Some dot"
  then have "pos \<le> dot \<and> dot < length name"
    using tw [of "CHR ''.''" "drop pos name"]
    by (auto simp: find_chr_from_def find_chr_def split: if_splits)
  then show "((name, table_register table (drop pos name)
                 (word_of_nat (unat baseOffset + length buf)), baseOffset,
               buf @ [word_of_nat (dot - pos)]
                   @ map byte_of_char (take (dot - pos) (drop pos name)),
               dot + 1),
              name, table, baseOffset, buf, pos)
             \<in> measure (\<lambda>(name, table, baseOffset, buf, pos). length name - pos)"
    by auto
qed simp

declare Name_encode_loop.simps [simp del]

definition Name_encode ::
  "string \<Rightarrow> table option \<Rightarrow> u16 \<Rightarrow> byte list expected \<times> table option" where
  "Name_encode name table baseOffset = Name_encode_loop name table baseOffset [] 0"

section \<open>Question::encode, ResourceRecord::encode, MessageParser::encode\<close>

definition Question_encode ::
  "Question \<Rightarrow> table option \<Rightarrow> u16 \<Rightarrow> byte list expected \<times> table option" where
  "Question_encode q table baseOffset =
     (case Name_encode (qname q) table baseOffset of
        (Inl f, table') \<Rightarrow> (Inl f, table')
      | (Inr nameBytes, table') \<Rightarrow>
          (Inr (nameBytes @ write16 (qtype q) @ write16 (qclass q)), table'))"

definition ResourceRecord_encode ::
  "ResourceRecord \<Rightarrow> table option \<Rightarrow> u16 \<Rightarrow> byte list expected \<times> table option" where
  "ResourceRecord_encode rr table baseOffset =
     (case Name_encode (rr_name rr) table baseOffset of
        (Inl f, table') \<Rightarrow> (Inl f, table')
      | (Inr nameBytes, table') \<Rightarrow>
          (Inr (nameBytes @ write16 (rr_type rr) @ write16 (rr_rclass rr)
                @ write32 (rr_ttl rr) @ write16 (of_nat (length (rr_rdata rr)))
                @ rr_rdata rr), table'))"

text \<open>
  The range-\<open>for\<close> loops of \<open>MessageParser::encode\<close> over one section: \<open>buf\<close> is the
  datagram written so far and the table is shared by all sections.
\<close>

fun encode_questions ::
  "Question list \<Rightarrow> table \<Rightarrow> byte list \<Rightarrow> (byte list \<times> table) expected" where
  "encode_questions [] table buf = Inr (buf, table)"
| "encode_questions (q # qs) table buf =
     (case Question_encode q (Some table) (of_nat (length buf)) of
        (Inl f, table') \<Rightarrow> Inl f
      | (Inr bytes, table') \<Rightarrow> encode_questions qs (the table') (buf @ bytes))"

fun encode_records ::
  "ResourceRecord list \<Rightarrow> table \<Rightarrow> byte list \<Rightarrow> (byte list \<times> table) expected" where
  "encode_records [] table buf = Inr (buf, table)"
| "encode_records (rr # rrs) table buf =
     (case ResourceRecord_encode rr (Some table) (of_nat (length buf)) of
        (Inl f, table') \<Rightarrow> Inl f
      | (Inr bytes, table') \<Rightarrow> encode_records rrs (the table') (buf @ bytes))"

definition MessageParser_encode :: "Message \<Rightarrow> byte list expected" where
  "MessageParser_encode msg =
     (let hdr = (header msg)\<lparr>h_qdcount := of_nat (length (questions msg)),
                             h_ancount := of_nat (length (answers msg)),
                             h_nscount := of_nat (length (authority msg)),
                             h_arcount := of_nat (length (additional msg))\<rparr>
      in
       (case encode_questions (questions msg) Map.empty (Header_encode hdr) of
          Inl f \<Rightarrow> Inl f
        | Inr (buf1, t1) \<Rightarrow>
         (case encode_records (answers msg) t1 buf1 of Inl f \<Rightarrow> Inl f
          | Inr (buf2, t2) \<Rightarrow>
           (case encode_records (authority msg) t2 buf2 of Inl f \<Rightarrow> Inl f
            | Inr (buf3, t3) \<Rightarrow>
             (case encode_records (additional msg) t3 buf3 of Inl f \<Rightarrow> Inl f
              | Inr (buf4, t4) \<Rightarrow>
                 if length buf4 > MAX_EDNS_PAYLOAD then Inl (Unexpected ENCODE_OVERFLOW)
                 else Inr buf4)))))"

section \<open>Listener: the denylist matcher\<close>

text \<open>\<open>std::string::find(pat)\<close> for a pattern string.\<close>

fun find_str :: "string \<Rightarrow> string \<Rightarrow> nat option" where
  "find_str pat [] = (if pat = [] then Some 0 else None)"
| "find_str pat (c # cs) =
     (if take (length pat) (c # cs) = pat then Some 0
      else map_option Suc (find_str pat cs))"

text \<open>\<open>std::string::find_first_of(chars)\<close>.\<close>

definition find_first_of :: "string \<Rightarrow> string \<Rightarrow> nat option" where
  "find_first_of chars s =
     (if list_ex (\<lambda>x. x \<in> set chars) s
      then Some (length (takeWhile (\<lambda>x. x \<notin> set chars) s)) else None)"

definition stripPathAndQuery :: "string \<Rightarrow> string" where
  "stripPathAndQuery str =
     (case find_first_of ''/?:#'' str of None \<Rightarrow> str | Some pos \<Rightarrow> take pos str)"

definition stripSchema :: "string \<Rightarrow> string" where
  "stripSchema str =
     (case find_str ''://'' str of None \<Rightarrow> str | Some pos \<Rightarrow> drop (pos + 3) str)"

text \<open>\<open>std::tolower\<close> on an \<open>unsigned char\<close> in the default C locale.\<close>

definition tolower :: "char \<Rightarrow> char" where
  "tolower c =
     (if (65::nat) \<le> of_char c \<and> of_char c \<le> (90::nat) then char_of (of_char c + (32::nat))
      else c)"

text \<open>The \<open>while (true)\<close> loop of \<open>Listener::search\<close> over \<open>current\<close>.\<close>

function search_loop :: "string set \<Rightarrow> string \<Rightarrow> bool" where
  "search_loop blocklist current =
     (if current \<in> blocklist then True
      else
       (case find_chr CHR ''.'' current of
          None \<Rightarrow> False
        | Some dot \<Rightarrow> search_loop blocklist (drop (dot + 1) current)))"
  by pat_completeness auto
termination
proof (relation "measure (\<lambda>(blocklist, current). length current)")
  fix blocklist :: "string set" and current :: string and dot :: nat
  assume "find_chr CHR ''.'' current = Some dot"
  then have "CHR ''.'' \<in> set current"
    by (simp add: find_chr_def split: if_splits)
  then have "current \<noteq> []"
    by auto
  then show "((blocklist, drop (dot + 1) current), blocklist, current)
               \<in> measure (\<lambda>(blocklist, current). length current)"
    by simp
qed simp

declare search_loop.simps [simp del]

definition search :: "string set \<Rightarrow> string \<Rightarrow> bool" where
  "search blocklist domain =
     search_loop blocklist (map tolower (stripPathAndQuery (stripSchema domain)))"

section \<open>Listener::handleQuery\<close>

text \<open>
  Step 5 of \<open>handleQuery\<close>: the parsed message \<open>result.value()\<close> is turned in place
  into the blocked response for the matching question \<open>q\<close>.
\<close>

definition blockedResponse :: "Message \<Rightarrow> Question \<Rightarrow> Message" where
  "blockedResponse msg q =
     (let m1 = msg\<lparr>header := (header msg)\<lparr>h_qr := True, h_ra := True,
                                            h_nscount := 0, h_arcount := 0\<rparr>\<rparr>
      in if qtype q = QType_HTTPS
         then m1\<lparr>header := (header m1)\<lparr>h_ancount := 0\<rparr>\<rparr>
         else
          (let rdlen = (if qtype q = QType_AAAA then 16 else 4 :: u16);
               rr = \<lparr>rr_name = qname q, rr_type = qtype q, rr_rclass = qclass q,
                     rr_ttl = 0, rr_rdlength = rdlen,
                     rr_rdata = replicate (unat rdlen) 0\<rparr>
           in m1\<lparr>answers := [rr], header := (header m1)\<lparr>h_ancount := 1\<rparr>\<rparr>))"

text \<open>
  What \<open>handleQuery\<close> puts on the network: a datagram to the client or the raw
  query to the upstream resolver. \<open>recvfrom\<close> is taken to have delivered the
  datagram \<open>buf\<close>, and \<open>sendto\<close> to send a datagram whole; the reply of the
  upstream resolver, which \<open>forward\<close> relays unparsed, is not part of the model.
  The parser is given the received bytes only. In the source they lie at the start of
  a zero-filled array of 4096 bytes, so a read behind the datagram returns what the
  array holds there, and leaves the array when the datagram fills it; the model maps
  every such read to \<open>ReadPastEnd\<close>.
\<close>

datatype event = SendToClient "byte list" | ForwardUpstream "byte list"

text \<open>The loop over the questions of the parsed message.\<close>

fun handle_questions ::
  "string set \<Rightarrow> byte list \<Rightarrow> Message \<Rightarrow> Question list \<Rightarrow> event list
     \<Rightarrow> (Error \<times> event list) expected"
where
  "handle_questions blocklist buf msg [] events = Inr (OK, events)"
| "handle_questions blocklist buf msg (q # qs) events =
     (if search blocklist (qname q) then
        (case MessageParser_encode (blockedResponse msg q) of
           Inl (Unexpected e) \<Rightarrow> Inr (e, events)
         | Inl ReadPastEnd \<Rightarrow> Inl ReadPastEnd
         | Inr encoded \<Rightarrow>
             if length encoded > MAX_EDNS_PAYLOAD then Inr (SERVER_SEND_FAIL, events)
             else Inr (OK, events @ [SendToClient encoded]))
      else handle_questions blocklist buf msg qs (events @ [ForwardUpstream buf]))"

definition handleQuery :: "string set \<Rightarrow> byte list \<Rightarrow> (Error \<times> event list) expected" where
  "handleQuery blocklist buf =
     (if length buf < 13 then Inr (PARSE_TOO_SHORT, [])
      else
       (case MessageParser_parse buf of
          Inl (Unexpected e) \<Rightarrow> Inr (e, [])
        | Inl ReadPastEnd \<Rightarrow> Inl ReadPastEnd
        | Inr msg \<Rightarrow> handle_questions blocklist buf msg (questions msg) []))"

section \<open>Datagrams and names used as examples\<close>

text \<open>
  A query \<open>A? ads.com\<close> (id \<open>0xABCD\<close>, RD set) with one EDNS OPT pseudo-record in the
  additional section: root owner name, TYPE 41, CLASS 4096, TTL 0, RDLENGTH 0.
\<close>

definition query_ads_opt :: "byte list" where
  "query_ads_opt =
     [0xAB, 0xCD, 0x01, 0x00, 0x00, 0x01, 0x00, 0x00, 0x00, 0x00, 0x00, 0x01,
      0x03, 0x61, 0x64, 0x73, 0x03, 0x63, 0x6F, 0x6D, 0x00, 0x00, 0x01, 0x00, 0x01,
      0x00, 0x00, 0x29, 0x10, 0x00, 0x00, 0x00, 0x00, 0x00, 0x00, 0x00]"

text \<open>
  The same 36 bytes, except that the OPT record declares RDLENGTH 5 although the
  datagram ends right after the RDLENGTH field.
\<close>

definition query_ads_opt_short :: "byte list" where
  "query_ads_opt_short =
     [0xAB, 0xCD, 0x01, 0x00, 0x00, 0x01, 0x00, 0x00, 0x00, 0x00, 0x00, 0x01,
      0x03, 0x61, 0x64, 0x73, 0x03, 0x63, 0x6F, 0x6D, 0x00, 0x00, 0x01, 0x00, 0x01,
      0x00, 0x00, 0x29, 0x10, 0x00, 0x00, 0x00, 0x00, 0x00, 0x00, 0x05]"

text \<open>A query \<open>A? ads.com\<close> whose flag word is \<open>0x0103\<close>: RD set and RCODE bits 3.\<close>

definition query_ads_rcode3 :: "byte list" where
  "query_ads_rcode3 =
     [0xAB, 0xCD, 0x01, 0x03, 0x00, 0x01, 0x00, 0x00, 0x00, 0x00, 0x00, 0x00,
      0x03, 0x61, 0x64, 0x73, 0x03, 0x63, 0x6F, 0x6D, 0x00, 0x00, 0x01, 0x00, 0x01]"



text \<open>A name at offset 12 that consists of a compression pointer to offset 12.\<close>

definition self_pointer :: "byte list" where
  "self_pointer = replicate 12 0 @ [0xC0, 0x0C]"

text \<open>A 12-byte header of a query with opcode 3 and all four counts zero.\<close>

definition header_opcode3 :: "byte list" where
  "header_opcode3 = [0x00, 0x01, 0x18, 0x00, 0x00, 0x00, 0x00, 0x00, 0x00, 0x00, 0x00, 0x00]"


section \<open>Names as sequences of labels\<close>








section \<open>The names of a message in the order of their encoding\<close>






section \<open>Facts about the readers\<close>

lemma byte_at_in: "i < length data \<Longrightarrow> byte_at data i = Inr (data ! i)"
  by (simp add: byte_at_def)

lemma read16_in:
  "i + 1 < length data \<Longrightarrow> read16 data i = Inr (be16 (data ! i) (data ! (i + 1)))"
  by (simp add: read16_def byte_at_def)

lemma read16_faults: "read16 data i = Inl f \<Longrightarrow> f = ReadPastEnd"
  by (auto simp: read16_def byte_at_def split: if_splits sum.splits)

lemma read32_faults: "read32 data i = Inl f \<Longrightarrow> f = ReadPastEnd"
  by (auto simp: read32_def byte_at_def split: if_splits sum.splits)

lemma bytes_from_faults: "bytes_from data i n = Inl f \<Longrightarrow> f = ReadPastEnd"
  by (auto simp: bytes_from_def split: if_splits)

section \<open>Error codes of the decoders\<close>

lemma Name_decode_loop_errors:
  "Name_decode_loop data name pos jumped hops offset = Inl (Unexpected e) \<Longrightarrow>
     e \<in> {PARSE_TRUNCATED, PARSE_PTR_OOB, PARSE_PTR_LOOP, PARSE_BAD_LABEL, PARSE_NAME_TOO_LONG}"
proof (induction data name pos jumped hops offset rule: Name_decode_loop.induct)
  case (1 data name pos jumped hops offset)
  from "1.prems" "1.IH" show ?case
    by (subst (asm) Name_decode_loop.simps)
       (auto split: if_splits sum.splits simp: byte_at_def bytes_from_def)
qed

lemma Name_decode_errors:
  "Name_decode data offset = Inl (Unexpected e) \<Longrightarrow>
     e \<in> {PARSE_TRUNCATED, PARSE_PTR_OOB, PARSE_PTR_LOOP, PARSE_BAD_LABEL, PARSE_NAME_TOO_LONG}"
  unfolding Name_decode_def
  by (auto split: sum.splits dest: Name_decode_loop_errors)

lemma Question_decode_errors:
  "Question_decode data offset = Inl (Unexpected e) \<Longrightarrow>
     e \<in> {PARSE_TRUNCATED, PARSE_PTR_OOB, PARSE_PTR_LOOP, PARSE_BAD_LABEL, PARSE_NAME_TOO_LONG}"
  unfolding Question_decode_def
  by (auto split: sum.splits if_splits dest: Name_decode_errors read16_faults)

lemma ResourceRecord_decode_errors:
  "ResourceRecord_decode data offset = Inl (Unexpected e) \<Longrightarrow>
     e \<in> {PARSE_TRUNCATED, PARSE_PTR_OOB, PARSE_PTR_LOOP, PARSE_BAD_LABEL, PARSE_NAME_TOO_LONG}"
  unfolding ResourceRecord_decode_def
  by (auto split: sum.splits if_splits
        dest: Name_decode_errors read16_faults read32_faults bytes_from_faults)

lemma Header_decode_errors:
  "Header_decode data = Inl (Unexpected e) \<Longrightarrow>
     e \<in> {PARSE_TOO_SHORT, PARSE_TRUNCATED, PARSE_BAD_OPCODE, PARSE_BAD_QDCOUNT}"
  unfolding Header_decode_def
  by (auto split: sum.splits if_splits dest: read16_faults)

lemma decode_questions_errors:
  "decode_questions data n acc offset = Inl (Unexpected e) \<Longrightarrow>
     e \<in> {PARSE_TRUNCATED, PARSE_PTR_OOB, PARSE_PTR_LOOP, PARSE_BAD_LABEL, PARSE_NAME_TOO_LONG}"
  by (induction n arbitrary: acc offset)
     (auto split: sum.splits dest: Question_decode_errors)

lemma decode_records_errors:
  "decode_records data n acc offset = Inl (Unexpected e) \<Longrightarrow>
     e \<in> {PARSE_TRUNCATED, PARSE_PTR_OOB, PARSE_PTR_LOOP, PARSE_BAD_LABEL, PARSE_NAME_TOO_LONG}"
  by (induction n arbitrary: acc offset)
     (auto split: sum.splits dest: ResourceRecord_decode_errors)

lemma MessageParser_parse_errors:
  "MessageParser_parse data = Inl (Unexpected e) \<Longrightarrow>
     e \<in> {PARSE_TOO_SHORT, PARSE_TRUNCATED, PARSE_BAD_OPCODE, PARSE_BAD_QDCOUNT,
          PARSE_PTR_OOB, PARSE_PTR_LOOP, PARSE_BAD_LABEL, PARSE_NAME_TOO_LONG}"
  unfolding MessageParser_parse_def
  by (auto split: sum.splits if_splits
        dest!: Header_decode_errors decode_questions_errors decode_records_errors)

text \<open>
  Claim C10: \<open>Question::decode\<close> and \<open>ResourceRecord::decode\<close> take the 16-bit type
  and class fields as they are on the wire, whatever their value, and no decode path
  (\<open>Name::decode\<close>, \<open>Header::decode\<close>, \<open>Question::decode\<close>, \<open>ResourceRecord::decode\<close>,
  \<open>MessageParser::parse\<close>) returns \<open>PARSE_BAD_QTYPE\<close> or \<open>PARSE_BAD_QCLASS\<close>.
\<close>

theorem decoders_never_return_bad_qtype_or_qclass:
  "Name_decode data offset
        \<notin> {Inl (Unexpected PARSE_BAD_QTYPE), Inl (Unexpected PARSE_BAD_QCLASS)}
   \<and> Header_decode data
        \<notin> {Inl (Unexpected PARSE_BAD_QTYPE), Inl (Unexpected PARSE_BAD_QCLASS)}
   \<and> Question_decode data offset
        \<notin> {Inl (Unexpected PARSE_BAD_QTYPE), Inl (Unexpected PARSE_BAD_QCLASS)}
   \<and> ResourceRecord_decode data offset
        \<notin> {Inl (Unexpected PARSE_BAD_QTYPE), Inl (Unexpected PARSE_BAD_QCLASS)}
   \<and> MessageParser_parse data
        \<notin> {Inl (Unexpected PARSE_BAD_QTYPE), Inl (Unexpected PARSE_BAD_QCLASS)}
   \<and> (Name_decode data offset = Inr (name, offset') \<and> offset' + 4 \<le> length data \<longrightarrow>
        Question_decode data offset =
          Inr (\<lparr>qname = name,
                qtype = be16 (data ! offset') (data ! (offset' + 1)),
                qclass = be16 (data ! (offset' + 2)) (data ! (offset' + 3))\<rparr>, offset' + 4))
   \<and> (Name_decode data offset = Inr (name, offset') \<and> offset' + 10 \<le> length data \<and>
       offset' + 10 + unat (be16 (data ! (offset' + 8)) (data ! (offset' + 9))) \<le> length data
       \<longrightarrow>
        map_sum id (\<lambda>(rr, off). (rr_type rr, rr_rclass rr, off))
            (ResourceRecord_decode data offset) =
          Inr (be16 (data ! offset') (data ! (offset' + 1)),
               be16 (data ! (offset' + 2)) (data ! (offset' + 3)),
               offset' + 10 + unat (be16 (data ! (offset' + 8)) (data ! (offset' + 9)))))"
proof -
  have n: "Name_decode data offset
             \<notin> {Inl (Unexpected PARSE_BAD_QTYPE), Inl (Unexpected PARSE_BAD_QCLASS)}"
    using Name_decode_errors [of data offset] by auto
  have h: "Header_decode data
             \<notin> {Inl (Unexpected PARSE_BAD_QTYPE), Inl (Unexpected PARSE_BAD_QCLASS)}"
    using Header_decode_errors [of data] by auto
  have q: "Question_decode data offset
             \<notin> {Inl (Unexpected PARSE_BAD_QTYPE), Inl (Unexpected PARSE_BAD_QCLASS)}"
    using Question_decode_errors [of data offset] by auto
  have r: "ResourceRecord_decode data offset
             \<notin> {Inl (Unexpected PARSE_BAD_QTYPE), Inl (Unexpected PARSE_BAD_QCLASS)}"
    using ResourceRecord_decode_errors [of data offset] by auto
  have p: "MessageParser_parse data
             \<notin> {Inl (Unexpected PARSE_BAD_QTYPE), Inl (Unexpected PARSE_BAD_QCLASS)}"
    using MessageParser_parse_errors [of data] by auto
  have qa: "Name_decode data offset = Inr (name, offset') \<and> offset' + 4 \<le> length data \<longrightarrow>
        Question_decode data offset =
          Inr (\<lparr>qname = name,
                qtype = be16 (data ! offset') (data ! (offset' + 1)),
                qclass = be16 (data ! (offset' + 2)) (data ! (offset' + 3))\<rparr>, offset' + 4)"
    by (auto simp: Question_decode_def read16_def byte_at_def eval_nat_numeral)
  have ra: "Name_decode data offset = Inr (name, offset') \<and> offset' + 10 \<le> length data \<and>
       offset' + 10 + unat (be16 (data ! (offset' + 8)) (data ! (offset' + 9))) \<le> length data
       \<longrightarrow>
        map_sum id (\<lambda>(rr, off). (rr_type rr, rr_rclass rr, off))
            (ResourceRecord_decode data offset) =
          Inr (be16 (data ! offset') (data ! (offset' + 1)),
               be16 (data ! (offset' + 2)) (data ! (offset' + 3)),
               offset' + 10 + unat (be16 (data ! (offset' + 8)) (data ! (offset' + 9))))"
    by (auto simp: ResourceRecord_decode_def read16_def read32_def byte_at_def bytes_from_def
          eval_nat_numeral)
  from n h q r p qa ra show ?thesis by blast
qed

text \<open>
  A question \<open>ads\<close> with QTYPE \<open>0xFFFF\<close> and QCLASS \<open>0xFFFE\<close>, and a record with
  root owner name, TYPE \<open>0xFFFD\<close> and CLASS \<open>0xFFFC\<close>, are decoded with these values.
\<close>

theorem decoders_never_return_bad_qtype_or_qclass_witness:
  "Name_decode [0x03, 0x61, 0x64, 0x73, 0x00, 0xFF, 0xFF, 0xFF, 0xFE] 0 = Inr (''ads'', 5)
   \<and> Question_decode [0x03, 0x61, 0x64, 0x73, 0x00, 0xFF, 0xFF, 0xFF, 0xFE] 0
       = Inr (\<lparr>qname = ''ads'', qtype = 0xFFFF, qclass = 0xFFFE\<rparr>, 9)
   \<and> Name_decode [0x00, 0xFF, 0xFD, 0xFF, 0xFC, 0x00, 0x00, 0x00, 0x00, 0x00, 0x01, 0x07] 0
       = Inr ([], 1)
   \<and> ResourceRecord_decode
        [0x00, 0xFF, 0xFD, 0xFF, 0xFC, 0x00, 0x00, 0x00, 0x00, 0x00, 0x01, 0x07] 0
       = Inr (\<lparr>rr_name = [], rr_type = 0xFFFD, rr_rclass = 0xFFFC, rr_ttl = 0,
                rr_rdlength = 1, rr_rdata = [0x07]\<rparr>, 12)"
  using decoders_never_return_bad_qtype_or_qclass
    [where data = "[0x03, 0x61, 0x64, 0x73, 0x00, 0xFF, 0xFF, 0xFF, 0xFE]"
       and offset = 0 and name = "''ads''" and offset' = 5]
    decoders_never_return_bad_qtype_or_qclass
    [where data = "[0x00, 0xFF, 0xFD, 0xFF, 0xFC, 0x00, 0x00, 0x00, 0x00, 0x00, 0x01, 0x07]"
       and offset = 0 and name = "[]" and offset' = 1]
  by code_simp

section \<open>Reads past the end of the datagram\<close>

text \<open>
  The name, question and header decoders test the length before every read. The
  record decoder reads past the end exactly through its RDATA copy.
\<close>

lemma Name_decode_loop_in_bounds:
  "Name_decode_loop data name pos jumped hops offset \<noteq> Inl ReadPastEnd"
proof (induction data name pos jumped hops offset rule: Name_decode_loop.induct)
  case (1 data name pos jumped hops offset)
  from "1.IH" show ?case
    by (subst Name_decode_loop.simps)
       (auto split: if_splits sum.splits simp: byte_at_def bytes_from_def)
qed

lemma Name_decode_in_bounds: "Name_decode data offset \<noteq> Inl ReadPastEnd"
  using Name_decode_loop_in_bounds [of data "[]" offset False 0 offset]
  by (auto simp: Name_decode_def split: sum.splits)

lemma Question_decode_in_bounds: "Question_decode data offset \<noteq> Inl ReadPastEnd"
  using Name_decode_in_bounds [of data offset]
  by (auto simp: Question_decode_def read16_def byte_at_def split: sum.splits if_splits)

lemma Header_decode_in_bounds: "Header_decode data \<noteq> Inl ReadPastEnd"
  by (auto simp: Header_decode_def read16_def byte_at_def split: sum.splits if_splits)

lemma ResourceRecord_decode_rdata_past_end:
  assumes "Name_decode data offset = Inr (name, off)"
    and "off + 10 \<le> length data"
    and "read16 data (off + 8) = Inr rdlength"
    and "off + unat rdlength \<le> length data"
    and "length data < off + 10 + unat rdlength"
  shows "ResourceRecord_decode data offset = Inl ReadPastEnd"
proof -
  from assms(2) have r: "read16 data off = Inr (be16 (data ! off) (data ! (off + 1)))"
    "read16 data (off + 2) = Inr (be16 (data ! (off + 2)) (data ! (off + 2 + 1)))"
    by (simp_all add: read16_in)
  from assms(2) obtain ttl where t: "read32 data (off + 4) = Inr ttl"
    by (simp add: read32_def byte_at_def)
  from assms(5) have b: "bytes_from data (off + 10) (unat rdlength) = Inl ReadPastEnd"
    by (simp add: bytes_from_def)
  show ?thesis
    unfolding ResourceRecord_decode_def
    using assms(1,2,3,4) r t b by simp
qed

text \<open>
  Claim C1: for every datagram of at most 4096 bytes \<open>MessageParser::parse\<close> succeeds or
  returns a parse error without reading past the end of the buffer, and
  \<open>ResourceRecord::decode\<close> returns \<open>PARSE_TRUNCATED\<close> when the declared RDLENGTH
  exceeds the bytes that remain after the ten fixed-size bytes. The code does not do
  this on \<open>query_ads_opt_short\<close>: the record starts at offset 25, its name ends at 26,
  the fixed fields fill the datagram up to its length 36 and RDLENGTH is 5; the test
  \<open>offset + rdlength > len\<close> is made with \<open>offset = 26\<close>, passes, and the five RDATA
  bytes are then read from offsets 36 to 40.
\<close>

theorem ResourceRecord_decode_reads_past_end:
  "length query_ads_opt_short = 36
   \<and> Name_decode query_ads_opt_short 25 = Inr ([], 26)
   \<and> read16 query_ads_opt_short 34 = Inr 5
   \<and> ResourceRecord_decode query_ads_opt_short 25 = Inl ReadPastEnd
   \<and> MessageParser_parse query_ads_opt_short = Inl ReadPastEnd"
  by code_simp

section \<open>The blocked response\<close>

text \<open>
  The synthesis writes QR and RA and the three counts of the header, and the answer
  vector; the other header fields and the other sections stay as parsed. A parsed
  query (QR 0) has AA and RA clear.
\<close>

lemma blockedResponse_sections:
  "authority (blockedResponse msg q) = authority msg
   \<and> additional (blockedResponse msg q) = additional msg
   \<and> questions (blockedResponse msg q) = questions msg"
  by (simp add: blockedResponse_def Let_def)

lemma blockedResponse_header:
  "h_qr (header (blockedResponse msg q)) \<and> h_ra (header (blockedResponse msg q))
   \<and> h_aa (header (blockedResponse msg q)) = h_aa (header msg)
   \<and> h_rd (header (blockedResponse msg q)) = h_rd (header msg)
   \<and> h_id (header (blockedResponse msg q)) = h_id (header msg)
   \<and> h_rcode (header (blockedResponse msg q)) = h_rcode (header msg)"
  by (simp add: blockedResponse_def Let_def)

lemma Header_decode_query_flags:
  "Header_decode data = Inr h \<Longrightarrow> \<not> h_qr h \<Longrightarrow> \<not> h_aa h \<and> \<not> h_ra h"
  by (auto simp: Header_decode_def split: if_splits sum.splits)

text \<open>
  Claim C2: the encoded blocked response has NSCOUNT 0 and ARCOUNT 0 and carries no
  authority or additional record, also when the query had some. The code does not do
  this on \<open>query_ads_opt\<close> with the denylist \<open>{ads.com}\<close>: \<open>handleQuery\<close> zeroes the two
  count fields of the header but leaves the section vectors as parsed, and
  \<open>MessageParser::encode\<close> takes the counts from the vectors; the response sent has
  ARCOUNT 1 (bytes 10 and 11) and ends with the OPT record of the query.
\<close>

theorem blocked_response_keeps_additional_record:
  "map_sum id additional (MessageParser_parse query_ads_opt)
      = Inr [\<lparr>rr_name = [], rr_type = QType_OPT, rr_rclass = 4096, rr_ttl = 0,
               rr_rdlength = 0, rr_rdata = []\<rparr>]
   \<and> search {''ads.com''} ''ads.com''
   \<and> handleQuery {''ads.com''} query_ads_opt =
     Inr (OK, [SendToClient
       [0xAB, 0xCD, 0x81, 0x80, 0x00, 0x01, 0x00, 0x01, 0x00, 0x00, 0x00, 0x01,
        0x03, 0x61, 0x64, 0x73, 0x03, 0x63, 0x6F, 0x6D, 0x00, 0x00, 0x01, 0x00, 0x01,
        0xC0, 0x0C, 0x00, 0x01, 0x00, 0x01, 0x00, 0x00, 0x00, 0x00, 0x00, 0x04,
        0x00, 0x00, 0x00, 0x00,
        0xC0, 0x14, 0x00, 0x29, 0x10, 0x00, 0x00, 0x00, 0x00, 0x00, 0x00, 0x00]])"
  by code_simp

text \<open>
  Claim C3: the blocked response has QR 1, RA 1, AA 0 and RCODE NOERROR, and echoes
  the RD bit and the transaction id of the query, whatever the flag word of the query
  was. The code sets QR and RA and never writes RCODE: on \<open>query_ads_rcode3\<close>, a query
  (QR 0) whose RCODE bits are 3, the response carries the flag word \<open>0x8183\<close>, that is
  RCODE NXDOMAIN.
\<close>

theorem blocked_response_keeps_query_rcode:
  "map_sum id (\<lambda>m. (h_qr (header m), h_rcode (header m)))
      (MessageParser_parse query_ads_rcode3) = Inr (False, RCode_NXDOMAIN)
   \<and> map_sum id (\<lambda>m. h_rcode (header (blockedResponse m (hd (questions m)))))
      (MessageParser_parse query_ads_rcode3) = Inr RCode_NXDOMAIN
   \<and> handleQuery {''ads.com''} query_ads_rcode3 =
     Inr (OK, [SendToClient
       [0xAB, 0xCD, 0x81, 0x83, 0x00, 0x01, 0x00, 0x01, 0x00, 0x00, 0x00, 0x00,
        0x03, 0x61, 0x64, 0x73, 0x03, 0x63, 0x6F, 0x6D, 0x00, 0x00, 0x01, 0x00, 0x01,
        0xC0, 0x0C, 0x00, 0x01, 0x00, 0x01, 0x00, 0x00, 0x00, 0x00, 0x00, 0x04,
        0x00, 0x00, 0x00, 0x00]])"
  by code_simp

section \<open>Compression pointers in Name::decode\<close>

lemma Name_decode_loop_hops:
  "Name_decode_loop data name pos jumped hops offset = Inr (n, off', h) \<Longrightarrow> hops \<le> 20
     \<Longrightarrow> h \<le> 20"
proof (induction data name pos jumped hops offset rule: Name_decode_loop.induct)
  case (1 data name pos jumped hops offset)
  from "1.prems" "1.IH" show ?case
    by (subst (asm) Name_decode_loop.simps) (auto split: if_splits sum.splits)
qed

lemma self_pointer_loop:
  assumes "pos + 1 < length data"
    and "data ! pos AND COMPRESSION_MASK = COMPRESSION_MASK"
    and "unat (be16 (data ! pos AND 0x3F) (data ! (pos + 1))) = pos"
  shows "hops \<le> 20 \<Longrightarrow>
    Name_decode_loop data name pos jumped hops offset = Inl (Unexpected PARSE_PTR_LOOP)"
proof (induction "20 - hops" arbitrary: hops jumped offset)
  case 0
  then have h: "hops = 20" by simp
  from assms(2) have nz: "data ! pos \<noteq> 0" by (auto simp: COMPRESSION_MASK_def)
  show ?case
    apply (subst Name_decode_loop.simps)
    using assms nz h by (simp add: byte_at_in)
next
  case (Suc k)
  from assms(2) have nz: "data ! pos \<noteq> 0" by (auto simp: COMPRESSION_MASK_def)
  have "Name_decode_loop data name pos True (hops + 1) (if \<not> jumped then pos + 2 else offset)
          = Inl (Unexpected PARSE_PTR_LOOP)"
    by (rule Suc.hyps(1)) (use Suc in auto)
  then show ?case
    apply (subst Name_decode_loop.simps)
    using assms nz Suc.hyps(2) by (simp add: byte_at_in)
qed

lemma twenty_first_pointer:
  assumes "byte_at data pos = Inr b" "b AND COMPRESSION_MASK = COMPRESSION_MASK"
    "byte_at data (pos + 1) = Inr lo" "unat (be16 (b AND 0x3F) lo) < length data" "hops = 20"
  shows "Name_decode_loop data acc pos jumped hops off = Inl (Unexpected PARSE_PTR_LOOP)"
proof -
  from assms(2) have nz: "b \<noteq> 0" by (auto simp: COMPRESSION_MASK_def)
  from assms(1,3) have "pos < length data" "pos + 1 < length data"
    by (auto simp: byte_at_def split: if_splits)
  with assms nz show ?thesis
    by (subst Name_decode_loop.simps) simp
qed

text \<open>
  Claim C5: \<open>Name::decode\<close> terminates on every input. Its loop is the total function
  \<open>Name_decode_loop\<close>, whose termination proof orders the states by the hops left
  (\<open>21 - hops\<close>) and then by the bytes left (\<open>len - pos\<close>). A call that returns a name
  has followed at most 20 pointers; a pointer met after 20 hops ends the call with
  \<open>PARSE_PTR_LOOP\<close>; and so does a name whose pointer targets its own offset.
\<close>

theorem Name_decode_pointer_hops:
  "(Name_decode_loop data [] offset False 0 offset = Inr (name, offset', hops) \<longrightarrow> hops \<le> 20)
   \<and> (pos + 1 < length data
       \<and> data ! pos AND COMPRESSION_MASK = COMPRESSION_MASK
       \<and> unat (be16 (data ! pos AND 0x3F) (data ! (pos + 1))) = pos
       \<longrightarrow> Name_decode data pos = Inl (Unexpected PARSE_PTR_LOOP))
   \<and> (byte_at data at = Inr b \<and> b AND COMPRESSION_MASK = COMPRESSION_MASK
       \<and> byte_at data (at + 1) = Inr lo \<and> unat (be16 (b AND 0x3F) lo) < length data
       \<longrightarrow> Name_decode_loop data acc at jumped 20 off = Inl (Unexpected PARSE_PTR_LOOP))"
proof -
  have c: "byte_at data at = Inr b \<and> b AND COMPRESSION_MASK = COMPRESSION_MASK
       \<and> byte_at data (at + 1) = Inr lo \<and> unat (be16 (b AND 0x3F) lo) < length data
       \<longrightarrow> Name_decode_loop data acc at jumped 20 off = Inl (Unexpected PARSE_PTR_LOOP)"
    using twenty_first_pointer [of data at b lo 20 acc jumped off] by blast
  have a: "Name_decode_loop data [] offset False 0 offset = Inr (name, offset', hops)
             \<longrightarrow> hops \<le> 20"
    using Name_decode_loop_hops [of data "[]" offset False 0 offset name offset' hops] by simp
  have b: "pos + 1 < length data
       \<and> data ! pos AND COMPRESSION_MASK = COMPRESSION_MASK
       \<and> unat (be16 (data ! pos AND 0x3F) (data ! (pos + 1))) = pos
       \<longrightarrow> Name_decode data pos = Inl (Unexpected PARSE_PTR_LOOP)"
    using self_pointer_loop [of pos data 0 "[]" False pos] by (simp add: Name_decode_def)
  from a b c show ?thesis by blast
qed

text \<open>
  A name at offset 3 that is a pointer to the label \<open>a\<close> at offset 0 is decoded after
  one hop; the self-pointing name of \<open>self_pointer\<close> is refused.
\<close>

theorem Name_decode_pointer_hops_witness:
  "Name_decode_loop [0x01, 0x61, 0x00, 0xC0, 0x00] [] 3 False 0 3 = Inr (''a'', 5, 1)
   \<and> (1 :: nat) \<le> 20
   \<and> 12 + 1 < length self_pointer
   \<and> self_pointer ! 12 AND COMPRESSION_MASK = COMPRESSION_MASK
   \<and> unat (be16 (self_pointer ! 12 AND 0x3F) (self_pointer ! (12 + 1))) = 12
   \<and> Name_decode self_pointer 12 = Inl (Unexpected PARSE_PTR_LOOP)
   \<and> byte_at self_pointer 12 = Inr 0xC0
   \<and> byte_at self_pointer (12 + 1) = Inr 0x0C
   \<and> unat (be16 (0xC0 AND 0x3F) 0x0C) < length self_pointer
   \<and> Name_decode_loop self_pointer [] 12 True 20 14 = Inl (Unexpected PARSE_PTR_LOOP)"
  using Name_decode_pointer_hops
    [where data = "[0x01, 0x61, 0x00, 0xC0, 0x00]" and offset = 3 and name = "''a''"
       and offset' = 5 and hops = 1 and pos = 0 and at = 3 and b = "0xC0" and lo = 0
       and acc = "[]" and jumped = False and off = 3]
    Name_decode_pointer_hops
    [where data = self_pointer and pos = 12 and offset = 12 and name = "[]" and offset' = 14
       and hops = 0 and at = 12 and b = "0xC0" and lo = "0x0C" and acc = "[]"
       and jumped = True and off = 14]
  by code_simp

section \<open>The header codec\<close>

lemma mask_numerals:
  "(0xF :: 16 word) = mask 4" "(0xF :: 8 word) = mask 4" "(0xFF :: 16 word) = mask 8"
  "(0x3F :: 8 word) = mask 6" "(0x3F :: 16 word) = mask 6" "(0xFF :: 32 word) = mask 8"
  by (simp_all add: mask_eq_exp_minus_1)

lemma flag_bits:
  "((w :: u16) AND Flags_QR \<noteq> 0) = bit w 15"
  "(w AND Flags_AA \<noteq> 0) = bit w 10"
  "(w AND Flags_TC \<noteq> 0) = bit w 9"
  "(w AND Flags_RD \<noteq> 0) = bit w 8"
  "(w AND Flags_RA \<noteq> 0) = bit w 7"
  "(w AND Flags_Z \<noteq> 0) = bit w 6"
  "(w AND Flags_AD \<noteq> 0) = bit w 5"
  "(w AND Flags_CD \<noteq> 0) = bit w 4"
proof -
  have e: "Flags_QR = 2 ^ 15" "Flags_AA = 2 ^ 10" "Flags_TC = 2 ^ 9"
    "Flags_RD = 2 ^ 8" "Flags_RA = 2 ^ 7" "Flags_Z = 2 ^ 6"
    "Flags_AD = 2 ^ 5" "Flags_CD = 2 ^ 4"
    by (simp_all add: Flags_QR_def Flags_AA_def Flags_TC_def Flags_RD_def Flags_RA_def
          Flags_Z_def Flags_AD_def Flags_CD_def)
  show "((w :: u16) AND Flags_QR \<noteq> 0) = bit w 15"
  "(w AND Flags_AA \<noteq> 0) = bit w 10"
  "(w AND Flags_TC \<noteq> 0) = bit w 9"
  "(w AND Flags_RD \<noteq> 0) = bit w 8"
  "(w AND Flags_RA \<noteq> 0) = bit w 7"
  "(w AND Flags_Z \<noteq> 0) = bit w 6"
  "(w AND Flags_AD \<noteq> 0) = bit w 5"
  "(w AND Flags_CD \<noteq> 0) = bit w 4"
    unfolding e by (simp_all only: and_exp_eq_0_iff_not_bit simp_thms)
qed

lemma qr_bit: "(drop_bit 15 (w :: u16) AND 1 \<noteq> 0) = bit w 15"
  by (simp add: and_one_eq bit_iff_odd_drop_bit mod_2_eq_odd)

lemma bit_bit_of: "bit (bit_of b k) n = (b \<and> n = k \<and> k < 16)"
  by (auto simp: bit_of_def bit_simps)

lemma write16_be16: "write16 (be16 hi lo) = [hi, lo]"
proof -
  have a: "(ucast (drop_bit 8 (be16 hi lo) AND 0xFF) :: byte) = hi"
    unfolding mask_numerals be16_def
    by (rule bit_word_eqI) (auto simp: bit_simps dest: bit_imp_le_length)
  have b: "(ucast (be16 hi lo AND 0xFF) :: byte) = lo"
    unfolding mask_numerals be16_def
    by (rule bit_word_eqI) (auto simp: bit_simps)
  show ?thesis by (simp add: write16_def a b)
qed

lemma raw_flags:
  assumes "\<not> bit (flags :: u16) 6"
  shows "bit_of (bit flags 15) 15
     OR push_bit 11 (ucast (ucast (drop_bit 11 flags AND 0xF) :: byte) AND 0xF)
     OR bit_of (bit flags 10) 10
     OR bit_of (bit flags 9) 9
     OR bit_of (bit flags 8) 8
     OR bit_of (bit flags 7) 7
     OR bit_of (bit flags 5) 5
     OR bit_of (bit flags 4) 4
     OR (ucast (ucast (flags AND 0xF) :: byte) AND 0xF) = flags"
proof (rule bit_word_eqI)
  fix n :: nat
  assume "n < LENGTH(16)"
  then have n: "n < 16" by simp
  then consider "n < 4" | "n = 4" | "n = 5" | "n = 6" | "n = 7" | "n = 8" | "n = 9" | "n = 10"
    | "11 \<le> n \<and> n < 15" | "n = 15"
    by linarith
  then show "bit (bit_of (bit flags 15) 15
     OR push_bit 11 (ucast (ucast (drop_bit 11 flags AND 0xF) :: byte) AND 0xF)
     OR bit_of (bit flags 10) 10
     OR bit_of (bit flags 9) 9
     OR bit_of (bit flags 8) 8
     OR bit_of (bit flags 7) 7
     OR bit_of (bit flags 5) 5
     OR bit_of (bit flags 4) 4
     OR (ucast (ucast (flags AND 0xF) :: byte) AND 0xF)) n = bit flags n"
    unfolding mask_numerals
    using assms by cases (auto simp: bit_simps bit_bit_of)
qed

lemma Header_decode_unfold:
  assumes "read16 data 2 = Inr flags" "read16 data 4 = Inr qd" "read16 data 6 = Inr an"
    "read16 data 8 = Inr ns" "read16 data 10 = Inr ar"
  shows "Header_decode data =
          (if bit flags 6 then Inl (Unexpected PARSE_TRUNCATED)
          else if \<not> valid_opcode (ucast (drop_bit 11 flags AND 0xF))
          then Inl (Unexpected PARSE_BAD_OPCODE)
          else if \<not> bit flags 15 \<and> (bit flags 7 \<or> bit flags 10)
          then Inl (Unexpected PARSE_TRUNCATED)
          else if \<not> bit flags 15 \<and> qd = 0
                then Inl (Unexpected PARSE_BAD_QDCOUNT)
                else if qd > 1 then Inl (Unexpected PARSE_BAD_QDCOUNT)
                else if an > 500 \<or> ns > 500 \<or> ar > 500
                then Inl (Unexpected PARSE_TRUNCATED)
                else Inr \<lparr>h_id = be16 (data ! 0) (data ! 1),
                          h_qr = bit flags 15,
                          h_opcode = ucast (drop_bit 11 flags AND 0xF),
                          h_aa = bit flags 10,
                          h_tc = bit flags 9,
                          h_rd = bit flags 8,
                          h_ra = bit flags 7,
                          h_ad = bit flags 5,
                          h_cd = bit flags 4,
                          h_rcode = ucast (flags AND 0xF),
                          h_qdcount = qd, h_ancount = an,
                          h_nscount = ns, h_arcount = ar\<rparr>)"
proof -
  from assms(5) have len: "11 < length data"
    by (auto simp: read16_def byte_at_def split: if_splits sum.splits)
  from len have ne: "data \<noteq> []"
    by auto
  with len have id: "read16 data 0 = Inr (be16 (data ! 0) (data ! 1))"
    by (simp add: read16_def byte_at_def)
  have z: "(flags AND Flags_Z \<noteq> 0) = bit flags 6" by (rule flag_bits)
  show ?thesis
    unfolding Header_decode_def
    using len ne assms id by (simp add: qr_bit flag_bits)
qed

lemma take12:
  "12 \<le> length (b :: 'a list) \<Longrightarrow>
     take 12 b = [b ! 0, b ! 1, b ! 2, b ! 3, b ! 4, b ! 5, b ! 6, b ! 7, b ! 8, b ! 9, b ! 10, b ! 11]"
proof -
  assume a: "12 \<le> length b"
  then have "b \<noteq> []"
    by auto
  with a show ?thesis
    by (simp add: eval_nat_numeral take_Suc_conv_app_nth)
qed

lemma Header_roundtrip_take:
  assumes "Header_decode b = Inr h"
  shows "Header_encode h = take 12 b"
proof -
  from assms have len: "12 \<le> length b"
    by (auto simp: Header_decode_def split: if_splits)
  then have r: "read16 b 2 = Inr (be16 (b ! 2) (b ! 3))" "read16 b 4 = Inr (be16 (b ! 4) (b ! 5))"
    "read16 b 6 = Inr (be16 (b ! 6) (b ! 7))" "read16 b 8 = Inr (be16 (b ! 8) (b ! 9))"
    "read16 b 10 = Inr (be16 (b ! 10) (b ! 11))"
    by (simp_all add: read16_def byte_at_def)
  note u = Header_decode_unfold [OF r]
  from assms u have z: "\<not> bit (be16 (b ! 2) (b ! 3)) 6"
    by (auto split: if_splits)
  from assms u have h: "h = \<lparr>h_id = be16 (b ! 0) (b ! 1),
                          h_qr = bit (be16 (b ! 2) (b ! 3)) 15,
                          h_opcode = ucast (drop_bit 11 (be16 (b ! 2) (b ! 3)) AND 0xF),
                          h_aa = bit (be16 (b ! 2) (b ! 3)) 10,
                          h_tc = bit (be16 (b ! 2) (b ! 3)) 9,
                          h_rd = bit (be16 (b ! 2) (b ! 3)) 8,
                          h_ra = bit (be16 (b ! 2) (b ! 3)) 7,
                          h_ad = bit (be16 (b ! 2) (b ! 3)) 5,
                          h_cd = bit (be16 (b ! 2) (b ! 3)) 4,
                          h_rcode = ucast (be16 (b ! 2) (b ! 3) AND 0xF),
                          h_qdcount = be16 (b ! 4) (b ! 5), h_ancount = be16 (b ! 6) (b ! 7),
                          h_nscount = be16 (b ! 8) (b ! 9), h_arcount = be16 (b ! 10) (b ! 11)\<rparr>"
    by (simp split: if_splits)
  have g: "getRawFlags h = be16 (b ! 2) (b ! 3)"
    unfolding h getRawFlags_def Header.select_convs by (rule raw_flags [OF z])
  show ?thesis
    unfolding Header_encode_def g
    by (simp add: h write16_be16 take12 [OF len])
qed


text \<open>
  Claim C6: for every 12-byte pattern \<open>b\<close> that \<open>Header::decode\<close> accepts, encoding the
  decoded header gives \<open>b\<close> back byte for byte.
\<close>

theorem Header_encode_decode_roundtrip:
  "Header_decode b = Inr h \<Longrightarrow> length b = 12 \<Longrightarrow> Header_encode h = b"
  using Header_roundtrip_take [of b h] by simp

text \<open>A response header with the flag word \<open>0x85B3\<close> and the counts 1, 2, 0, 1.\<close>

theorem Header_encode_decode_roundtrip_witness:
  "Header_decode [0x12, 0x34, 0x85, 0xB3, 0x00, 0x01, 0x00, 0x02, 0x00, 0x00, 0x00, 0x01]
     = Inr \<lparr>h_id = 0x1234, h_qr = True, h_opcode = OpCode_QUERY, h_aa = True, h_tc = False,
            h_rd = True, h_ra = True, h_ad = True, h_cd = True, h_rcode = RCode_NXDOMAIN,
            h_qdcount = 1, h_ancount = 2, h_nscount = 0, h_arcount = 1\<rparr>
   \<and> length [0x12, 0x34, 0x85, 0xB3, 0x00, 0x01, 0x00, 0x02, 0x00, 0x00, 0x00, 0x01 :: byte] = 12
   \<and> Header_encode
        \<lparr>h_id = 0x1234, h_qr = True, h_opcode = OpCode_QUERY, h_aa = True, h_tc = False,
            h_rd = True, h_ra = True, h_ad = True, h_cd = True, h_rcode = RCode_NXDOMAIN,
            h_qdcount = 1, h_ancount = 2, h_nscount = 0, h_arcount = 1\<rparr>
     = [0x12, 0x34, 0x85, 0xB3, 0x00, 0x01, 0x00, 0x02, 0x00, 0x00, 0x00, 0x01]"
  using Header_encode_decode_roundtrip
    [where b = "[0x12, 0x34, 0x85, 0xB3, 0x00, 0x01, 0x00, 0x02, 0x00, 0x00, 0x00, 0x01]"
       and h = "\<lparr>h_id = 0x1234, h_qr = True, h_opcode = OpCode_QUERY, h_aa = True,
                  h_tc = False, h_rd = True, h_ra = True, h_ad = True, h_cd = True,
                  h_rcode = RCode_NXDOMAIN, h_qdcount = 1, h_ancount = 2, h_nscount = 0,
                  h_arcount = 1\<rparr>"]
  by code_simp

text \<open>
  Claim C8: \<open>Header::decode\<close> rejects a query with QDCOUNT 0 and any header with
  QDCOUNT above 1 with \<open>PARSE_BAD_QDCOUNT\<close>, a query with AA or RA set with
  \<open>PARSE_TRUNCATED\<close>, and any header with ANCOUNT, NSCOUNT or ARCOUNT above 500 with
  \<open>PARSE_TRUNCATED\<close>. The checks of the header run in the order length, Z bit, opcode,
  AA/RA in a query, QDCOUNT, section counts, and each rule of the claim speaks of the
  headers that reach its check. The theorem gives the result of every check, so that
  the code of every rejection is fixed: fewer than 12 bytes give \<open>PARSE_TOO_SHORT\<close>;
  a set Z bit gives \<open>PARSE_TRUNCATED\<close>; with the Z bit clear, an opcode outside the six
  recognised ones gives \<open>PARSE_BAD_OPCODE\<close>; with a recognised opcode, a query with AA
  or RA set gives \<open>PARSE_TRUNCATED\<close>; a header that reaches the QDCOUNT check with a
  query and QDCOUNT 0, or with QDCOUNT above 1, gives \<open>PARSE_BAD_QDCOUNT\<close>; with a
  recognised opcode and an admissible QDCOUNT, a section count above 500 gives
  \<open>PARSE_TRUNCATED\<close>; and a header that passes every check is accepted. The five
  words are the header fields as read from the wire.
\<close>

theorem Header_decode_rejections:
  "(length data < 12 \<longrightarrow> Header_decode data = Inl (Unexpected PARSE_TOO_SHORT))
   \<and> (read16 data 2 = Inr flags \<and> read16 data 4 = Inr qd \<and> read16 data 6 = Inr an
       \<and> read16 data 8 = Inr ns \<and> read16 data 10 = Inr ar \<longrightarrow>
        (flags AND Flags_Z \<noteq> 0 \<longrightarrow> Header_decode data = Inl (Unexpected PARSE_TRUNCATED))
      \<and> (flags AND Flags_Z = 0
          \<and> ucast (drop_bit 11 flags AND 0xF) \<notin> {OpCode_QUERY, OpCode_IQUERY, OpCode_STATUS,
                                                    OpCode_NOTIFY, OpCode_UPDATE, OpCode_DSO}
          \<longrightarrow> Header_decode data = Inl (Unexpected PARSE_BAD_OPCODE))
      \<and> (ucast (drop_bit 11 flags AND 0xF) \<in> {OpCode_QUERY, OpCode_IQUERY, OpCode_STATUS,
                                                 OpCode_NOTIFY, OpCode_UPDATE, OpCode_DSO} \<longrightarrow>
            (flags AND Flags_QR = 0 \<and> (flags AND Flags_AA \<noteq> 0 \<or> flags AND Flags_RA \<noteq> 0)
               \<longrightarrow> Header_decode data = Inl (Unexpected PARSE_TRUNCATED))
          \<and> (flags AND Flags_Z = 0
              \<and> \<not> (flags AND Flags_QR = 0 \<and> (flags AND Flags_AA \<noteq> 0 \<or> flags AND Flags_RA \<noteq> 0))
              \<and> ((flags AND Flags_QR = 0 \<and> qd = 0) \<or> qd > 1)
               \<longrightarrow> Header_decode data = Inl (Unexpected PARSE_BAD_QDCOUNT))
          \<and> (\<not> ((flags AND Flags_QR = 0 \<and> qd = 0) \<or> qd > 1)
              \<and> (an > 500 \<or> ns > 500 \<or> ar > 500)
               \<longrightarrow> Header_decode data = Inl (Unexpected PARSE_TRUNCATED))
          \<and> (flags AND Flags_Z = 0
              \<and> \<not> (flags AND Flags_QR = 0 \<and> (flags AND Flags_AA \<noteq> 0 \<or> flags AND Flags_RA \<noteq> 0))
              \<and> \<not> ((flags AND Flags_QR = 0 \<and> qd = 0) \<or> qd > 1)
              \<and> \<not> (an > 500 \<or> ns > 500 \<or> ar > 500)
               \<longrightarrow> (case Header_decode data of Inr h \<Rightarrow> True | Inl f \<Rightarrow> False))))"
proof -
  have short: "length data < 12 \<longrightarrow> Header_decode data = Inl (Unexpected PARSE_TOO_SHORT)"
    by (simp add: Header_decode_def)
  have f: "(flags AND Flags_QR = 0) = (\<not> bit flags 15)"
    "(flags AND Flags_AA \<noteq> 0) = bit flags 10" "(flags AND Flags_RA \<noteq> 0) = bit flags 7"
    "(flags AND Flags_Z = 0) = (\<not> bit flags 6)" "(flags AND Flags_Z \<noteq> 0) = bit flags 6"
    using flag_bits [of flags] by auto
  have op: "(ucast (drop_bit 11 flags AND 0xF) \<in> {OpCode_QUERY, OpCode_IQUERY, OpCode_STATUS,
                                                 OpCode_NOTIFY, OpCode_UPDATE, OpCode_DSO})
            = valid_opcode (ucast (drop_bit 11 flags AND 0xF))"
    by (auto simp: valid_opcode_def)
  {
    assume r: "read16 data 2 = Inr flags" "read16 data 4 = Inr qd" "read16 data 6 = Inr an"
      "read16 data 8 = Inr ns" "read16 data 10 = Inr ar"
    note u = Header_decode_unfold [OF r]
    have "(flags AND Flags_Z \<noteq> 0 \<longrightarrow> Header_decode data = Inl (Unexpected PARSE_TRUNCATED))
      \<and> (flags AND Flags_Z = 0
          \<and> ucast (drop_bit 11 flags AND 0xF) \<notin> {OpCode_QUERY, OpCode_IQUERY, OpCode_STATUS,
                                                    OpCode_NOTIFY, OpCode_UPDATE, OpCode_DSO}
          \<longrightarrow> Header_decode data = Inl (Unexpected PARSE_BAD_OPCODE))
      \<and> (ucast (drop_bit 11 flags AND 0xF) \<in> {OpCode_QUERY, OpCode_IQUERY, OpCode_STATUS,
                                                 OpCode_NOTIFY, OpCode_UPDATE, OpCode_DSO} \<longrightarrow>
            (flags AND Flags_QR = 0 \<and> (flags AND Flags_AA \<noteq> 0 \<or> flags AND Flags_RA \<noteq> 0)
               \<longrightarrow> Header_decode data = Inl (Unexpected PARSE_TRUNCATED))
          \<and> (flags AND Flags_Z = 0
              \<and> \<not> (flags AND Flags_QR = 0 \<and> (flags AND Flags_AA \<noteq> 0 \<or> flags AND Flags_RA \<noteq> 0))
              \<and> ((flags AND Flags_QR = 0 \<and> qd = 0) \<or> qd > 1)
               \<longrightarrow> Header_decode data = Inl (Unexpected PARSE_BAD_QDCOUNT))
          \<and> (\<not> ((flags AND Flags_QR = 0 \<and> qd = 0) \<or> qd > 1)
              \<and> (an > 500 \<or> ns > 500 \<or> ar > 500)
               \<longrightarrow> Header_decode data = Inl (Unexpected PARSE_TRUNCATED))
          \<and> (flags AND Flags_Z = 0
              \<and> \<not> (flags AND Flags_QR = 0 \<and> (flags AND Flags_AA \<noteq> 0 \<or> flags AND Flags_RA \<noteq> 0))
              \<and> \<not> ((flags AND Flags_QR = 0 \<and> qd = 0) \<or> qd > 1)
              \<and> \<not> (an > 500 \<or> ns > 500 \<or> ar > 500)
               \<longrightarrow> (case Header_decode data of Inr h \<Rightarrow> True | Inl f \<Rightarrow> False)))"
      unfolding op u f by auto
  }
  with short show ?thesis by blast
qed

text \<open>
  A header of 6 bytes; a query with the Z bit set; \<open>header_opcode3\<close>; a query with AA
  set; a query with QDCOUNT 0; a response with QDCOUNT 2; a query with NSCOUNT 501; and
  an accepted query with ARCOUNT 1.
\<close>

theorem Header_decode_rejections_witness:
  "Header_decode [0x00, 0x01, 0x01, 0x00, 0x00, 0x01] = Inl (Unexpected PARSE_TOO_SHORT)
   \<and> Header_decode [0x00, 0x01, 0x01, 0x40, 0x00, 0x01, 0x00, 0x00, 0x00, 0x00, 0x00, 0x00]
     = Inl (Unexpected PARSE_TRUNCATED)
   \<and> Header_decode header_opcode3 = Inl (Unexpected PARSE_BAD_OPCODE)
   \<and> Header_decode [0x00, 0x01, 0x04, 0x00, 0x00, 0x01, 0x00, 0x00, 0x00, 0x00, 0x00, 0x00]
     = Inl (Unexpected PARSE_TRUNCATED)
   \<and> Header_decode [0x00, 0x01, 0x01, 0x00, 0x00, 0x00, 0x00, 0x00, 0x00, 0x00, 0x00, 0x00]
     = Inl (Unexpected PARSE_BAD_QDCOUNT)
   \<and> Header_decode [0x00, 0x01, 0x81, 0x80, 0x00, 0x02, 0x00, 0x00, 0x00, 0x00, 0x00, 0x00]
     = Inl (Unexpected PARSE_BAD_QDCOUNT)
   \<and> Header_decode [0x00, 0x01, 0x01, 0x00, 0x00, 0x01, 0x00, 0x00, 0x01, 0xF5, 0x00, 0x00]
     = Inl (Unexpected PARSE_TRUNCATED)
   \<and> (case Header_decode [0x00, 0x01, 0x01, 0x00, 0x00, 0x01, 0x00, 0x00, 0x00, 0x00, 0x00, 0x01]
        of Inr h \<Rightarrow> True | Inl f \<Rightarrow> False)"
  using
    Header_decode_rejections
      [where data = "[0x00, 0x01, 0x01, 0x00, 0x00, 0x01]"]
    Header_decode_rejections
      [where data = "[0x00, 0x01, 0x01, 0x40, 0x00, 0x01, 0x00, 0x00, 0x00, 0x00, 0x00, 0x00]"
         and flags = "0x0140" and qd = 1 and an = 0 and ns = 0 and ar = 0]
    Header_decode_rejections
      [where data = header_opcode3
         and flags = "0x1800" and qd = 0 and an = 0 and ns = 0 and ar = 0]
    Header_decode_rejections
      [where data = "[0x00, 0x01, 0x04, 0x00, 0x00, 0x01, 0x00, 0x00, 0x00, 0x00, 0x00, 0x00]"
         and flags = "0x0400" and qd = 1 and an = 0 and ns = 0 and ar = 0]
    Header_decode_rejections
      [where data = "[0x00, 0x01, 0x01, 0x00, 0x00, 0x00, 0x00, 0x00, 0x00, 0x00, 0x00, 0x00]"
         and flags = "0x0100" and qd = 0 and an = 0 and ns = 0 and ar = 0]
    Header_decode_rejections
      [where data = "[0x00, 0x01, 0x81, 0x80, 0x00, 0x02, 0x00, 0x00, 0x00, 0x00, 0x00, 0x00]"
         and flags = "0x8180" and qd = 2 and an = 0 and ns = 0 and ar = 0]
    Header_decode_rejections
      [where data = "[0x00, 0x01, 0x01, 0x00, 0x00, 0x01, 0x00, 0x00, 0x01, 0xF5, 0x00, 0x00]"
         and flags = "0x0100" and qd = 1 and an = 0 and ns = 501 and ar = 0]
    Header_decode_rejections
      [where data = "[0x00, 0x01, 0x01, 0x00, 0x00, 0x01, 0x00, 0x00, 0x00, 0x00, 0x00, 0x01]"
         and flags = "0x0100" and qd = 1 and an = 0 and ns = 0 and ar = 1]
  by code_simp

section \<open>The denylist matcher\<close>

lemma find_chr_None: "find_chr c s = None \<longleftrightarrow> c \<notin> set s"
  by (simp add: find_chr_def)

lemma find_chr_Some:
  assumes "find_chr c s = Some d"
  shows "s = take d s @ c # drop (d + 1) s \<and> c \<notin> set (take d s) \<and> d < length s"
proof -
  from assms have m: "c \<in> set s" and d: "d = length (takeWhile (\<lambda>x. x \<noteq> c) s)"
    by (auto simp: find_chr_def split: if_splits)
  from m obtain ys zs where s: "s = ys @ c # zs" and n: "c \<notin> set ys"
    by (meson split_list_first)
  from n have "takeWhile (\<lambda>x. x \<noteq> c) (ys @ c # zs) = ys"
    by (induction ys) auto
  then have tw: "takeWhile (\<lambda>x. x \<noteq> c) s = ys"
    by (simp add: s)
  show ?thesis
    unfolding d tw using n by (simp add: s)
qed

lemma dot_split:
  assumes "CHR ''.'' \<notin> set a"
  shows "(\<exists>pre t. a @ CHR ''.'' # b = pre @ ''.'' @ t \<and> t \<in> D)
          \<longleftrightarrow> (b \<in> D \<or> (\<exists>pre t. b = pre @ ''.'' @ t \<and> t \<in> D))"
proof
  assume "\<exists>pre t. a @ CHR ''.'' # b = pre @ ''.'' @ t \<and> t \<in> D"
  then obtain pre t where e: "a @ CHR ''.'' # b = pre @ CHR ''.'' # t" and t: "t \<in> D"
    by auto
  from e obtain us where
    "(a = pre @ us \<and> us @ CHR ''.'' # b = CHR ''.'' # t) \<or>
     (a @ us = pre \<and> CHR ''.'' # b = us @ CHR ''.'' # t)"
    by (auto simp: append_eq_append_conv2)
  then show "b \<in> D \<or> (\<exists>pre t. b = pre @ ''.'' @ t \<and> t \<in> D)"
  proof
    assume c: "a = pre @ us \<and> us @ CHR ''.'' # b = CHR ''.'' # t"
    show ?thesis
    proof (cases us)
      case Nil
      with c t show ?thesis by simp
    next
      case (Cons x xs)
      with c have "CHR ''.'' \<in> set a" by auto
      with assms show ?thesis by simp
    qed
  next
    assume c: "a @ us = pre \<and> CHR ''.'' # b = us @ CHR ''.'' # t"
    show ?thesis
    proof (cases us)
      case Nil
      with c t show ?thesis by simp
    next
      case (Cons x xs)
      with c have "b = xs @ ''.'' @ t" by simp
      with t show ?thesis by blast
    qed
  qed
next
  assume "b \<in> D \<or> (\<exists>pre t. b = pre @ ''.'' @ t \<and> t \<in> D)"
  then show "\<exists>pre t. a @ CHR ''.'' # b = pre @ ''.'' @ t \<and> t \<in> D"
  proof
    assume "b \<in> D"
    then have "a @ CHR ''.'' # b = a @ ''.'' @ b \<and> b \<in> D" by simp
    then show ?thesis by blast
  next
    assume "\<exists>pre t. b = pre @ ''.'' @ t \<and> t \<in> D"
    then obtain pre t where "b = pre @ ''.'' @ t" "t \<in> D" by blast
    then have "a @ CHR ''.'' # b = (a @ CHR ''.'' # pre) @ ''.'' @ t \<and> t \<in> D" by simp
    then show ?thesis by blast
  qed
qed

lemma search_loop_iff:
  "search_loop D s \<longleftrightarrow> (s \<in> D \<or> (\<exists>pre t. s = pre @ ''.'' @ t \<and> t \<in> D))"
proof (induction D s rule: search_loop.induct)
  case (1 D s)
  show ?case
  proof (cases "s \<in> D")
    case True
    then show ?thesis by (subst search_loop.simps) simp
  next
    case False
    show ?thesis
    proof (cases "find_chr CHR ''.'' s")
      case None
      then have "CHR ''.'' \<notin> set s" by (simp add: find_chr_None)
      then have "\<not> (\<exists>pre t. s = pre @ ''.'' @ t \<and> t \<in> D)" by auto
      with False None show ?thesis by (subst search_loop.simps) simp
    next
      case (Some d)
      from find_chr_Some [OF Some] have s: "s = take d s @ CHR ''.'' # drop (d + 1) s"
        and n: "CHR ''.'' \<notin> set (take d s)" by auto
      have "search_loop D s = search_loop D (drop (d + 1) s)"
        using False Some by (subst search_loop.simps) simp
      also have "\<dots> \<longleftrightarrow> (drop (d + 1) s \<in> D
                    \<or> (\<exists>pre t. drop (d + 1) s = pre @ ''.'' @ t \<and> t \<in> D))"
        using "1.IH" [OF False Some] .
      also have "\<dots> \<longleftrightarrow> (\<exists>pre t. take d s @ CHR ''.'' # drop (d + 1) s = pre @ ''.'' @ t \<and> t \<in> D)"
        using dot_split [OF n, of "drop (d + 1) s" D] by simp
      also have "\<dots> \<longleftrightarrow> (\<exists>pre t. s = pre @ ''.'' @ t \<and> t \<in> D)"
        using s by simp
      finally show ?thesis using False by simp
    qed
  qed
qed

text \<open>
  Claim C7: for a non-empty denied set \<open>D\<close> and a name \<open>n\<close> with normalised form \<open>s\<close>
  (schema stripped, cut at the first of \<open>/ ? : #\<close>, lower-cased), \<open>search\<close> returns
  true exactly when \<open>s\<close> or the part of \<open>s\<close> after one of its dots is in \<open>D\<close>; the
  walk tests the current name first and then continues behind its first dot, until
  no dot is left.
\<close>

theorem search_iff_label_suffix_denied:
  "s = map tolower (stripPathAndQuery (stripSchema n)) \<Longrightarrow> D \<noteq> {} \<Longrightarrow>
     (search D n \<longleftrightarrow> (s \<in> D \<or> (\<exists>pre t. s = pre @ ''.'' @ t \<and> t \<in> D)))
     \<and> (\<forall>c. search_loop D c \<longleftrightarrow>
            (c \<in> D \<or> (case find_chr CHR ''.'' c of None \<Rightarrow> False
                       | Some dot \<Rightarrow> search_loop D (drop (dot + 1) c))))"
proof -
  assume s: "s = map tolower (stripPathAndQuery (stripSchema n))"
  have a: "search D n \<longleftrightarrow> (s \<in> D \<or> (\<exists>pre t. s = pre @ ''.'' @ t \<and> t \<in> D))"
    unfolding search_def s by (rule search_loop_iff)
  have b: "search_loop D c \<longleftrightarrow>
            (c \<in> D \<or> (case find_chr CHR ''.'' c of None \<Rightarrow> False
                       | Some dot \<Rightarrow> search_loop D (drop (dot + 1) c)))" for c
    by (subst search_loop.simps) simp
  from a b show ?thesis by blast
qed

text \<open>
  With \<open>ads.com\<close> denied, \<open>HTTPS://Sub.ADS.com:80/x\<close> is matched through its suffix
  \<open>ads.com\<close>, and \<open>example.org\<close> is not matched.
\<close>

theorem search_iff_label_suffix_denied_witness:
  "''sub.ads.com'' = map tolower (stripPathAndQuery (stripSchema ''HTTPS://Sub.ADS.com:80/x''))
   \<and> {''ads.com''} \<noteq> ({} :: string set)
   \<and> ''sub.ads.com'' = ''sub'' @ ''.'' @ ''ads.com''
   \<and> search {''ads.com''} ''HTTPS://Sub.ADS.com:80/x''
   \<and> \<not> search {''ads.com''} ''example.org''"
proof -
  have n1: "''sub.ads.com'' = map tolower (stripPathAndQuery (stripSchema ''HTTPS://Sub.ADS.com:80/x''))"
    by code_simp
  have n2: "''example.org'' = map tolower (stripPathAndQuery (stripSchema ''example.org''))"
    by code_simp
  have ne: "{''ads.com''} \<noteq> ({} :: string set)"
    by simp
  have d: "''sub.ads.com'' = ''sub'' @ ''.'' @ ''ads.com''"
    by simp
  then have "\<exists>pre t. ''sub.ads.com'' = pre @ ''.'' @ t \<and> t \<in> {''ads.com''}"
    by blast
  with search_iff_label_suffix_denied [OF n1 ne]
  have a: "search {''ads.com''} ''HTTPS://Sub.ADS.com:80/x''"
    by blast
  have "\<not> search_loop {''ads.com''} ''example.org''"
    by code_simp
  then have b: "\<not> search {''ads.com''} ''example.org''"
    unfolding search_def n2 [symmetric] .
  from n1 ne d a b show ?thesis by blast
qed

section \<open>Length of decoded names\<close>















section \<open>The compression table of the encoder\<close>






























end
